theory Spec2Isabelle
  imports Main "HOL-Library.Sublist"
begin

section \<open>The templates-require-inputs rule of codelyzer\<close>

text \<open>
  A shallow embedding of \<^verbatim>\<open>src/templatesRequireInputsRule.ts\<close>. Objects that the
  TypeScript mutates in place are passed in and returned; a thrown exception is the
  \<open>Inl\<close> of a sum, returned together with the state as the throw left it.
  Strings are lists of 8-bit code units.
\<close>

subsection \<open>Values of the host language\<close>

text \<open>
  \<open>Error m\<close> is \<^verbatim>\<open>new Error(m)\<close>; \<open>TypeError\<close> is what reading a property of
  \<^verbatim>\<open>null\<close> or \<^verbatim>\<open>undefined\<close> throws.
\<close>

datatype js_error = Error string | TypeError

text \<open>
  What a method declared to return \<^verbatim>\<open>IFailure[]\<close> can hand back at run time: an
  array, \<^verbatim>\<open>null\<close>, or \<^verbatim>\<open>undefined\<close> when control falls off its end.
\<close>

datatype 'a js_ret = Undefined | Null | Array "'a list"

fun digits :: "nat \<Rightarrow> string" where
  "digits n =
     (if n < 10 then [''0123456789'' ! n]
      else digits (n div 10) @ [''0123456789'' ! (n mod 10)])"

declare digits.simps [simp del]

text \<open>An integer inside a template literal.\<close>

definition js_num :: "int \<Rightarrow> string" where
  "js_num i = (if i < 0 then ''-'' @ digits (nat (- i)) else digits (nat i))"

text \<open>A possibly undefined string inside a template literal, or used as a property key.\<close>

definition js_str :: "string option \<Rightarrow> string" where
  "js_str s = (case s of None \<Rightarrow> ''undefined'' | Some t \<Rightarrow> t)"

text \<open>\<^verbatim>\<open>s.includes(needle)\<close>.\<close>

fun js_includes :: "string \<Rightarrow> string \<Rightarrow> bool" where
  "js_includes [] needle = (needle = [])"
| "js_includes (c # cs) needle = (prefix needle (c # cs) \<or> js_includes cs needle)"

text \<open>\<^verbatim>\<open>xs.indexOf(x)\<close>: the first index of \<open>x\<close>, or \<open>-1\<close>.\<close>

fun indexOf :: "'a list \<Rightarrow> 'a \<Rightarrow> int" where
  "indexOf [] x = -1"
| "indexOf (y # ys) x =
     (if y = x then 0 else (let i = indexOf ys x in if i < 0 then -1 else i + 1))"

text \<open>
  \<^verbatim>\<open>s.slice(a, b)\<close>: a negative index counts from the end, both are clamped to the
  string.
\<close>

definition js_slice :: "string \<Rightarrow> int \<Rightarrow> int \<Rightarrow> string" where
  "js_slice s a b =
     (let n = int (length s);
          lo = (if a < 0 then max (n + a) 0 else min a n);
          hi = (if b < 0 then max (n + b) 0 else min b n)
      in take (nat (hi - lo)) (drop (nat lo) s))"

text \<open>
  The truthiness of \<^verbatim>\<open>args[i]\<close> for an array of booleans: out of range it is
  \<^verbatim>\<open>undefined\<close>, which is falsy.
\<close>

definition js_index :: "bool list \<Rightarrow> int \<Rightarrow> bool" where
  "js_index args i = (0 \<le> i \<and> nat i < length args \<and> args ! nat i)"

subsection \<open>The data model\<close>

datatype ts_Expression = StringLiteral string | OtherExpression

text \<open>
  A decorator node, as far as the rule reads it: \<^verbatim>\<open>getSourceFile().fileName\<close>,
  \<^verbatim>\<open>pos\<close> and the arguments of its call expression.
\<close>

record ts_Decorator =
  sourceFileName :: string
  pos :: int
  arguments :: "ts_Expression list"

text \<open>
  A template element: its tag name, the names of its bound inputs and of its plain
  attributes, and its source span.
\<close>

record ElementAst =
  el_name :: string
  el_inputs :: "string list"
  el_attrs :: "string list"
  el_line :: int
  el_start :: int
  el_end :: int

record IElementTracker =
  fileName :: string
  element :: ElementAst
  tr_properties :: "string list"

record IFailure =
  inputName :: string
  decorator :: ts_Decorator
  message :: string

text \<open>
  The checks of a component are closures made by an \<^verbatim>\<open>InputMetadataWalker\<close>; they
  read the \<^verbatim>\<open>componentName\<close> field of that walker when they run. The field of every
  walker, by the walker's address, is the heap a check is run in.
\<close>

type_synonym cn_heap = "nat \<Rightarrow> string option"

type_synonym check = "cn_heap \<Rightarrow> bool list \<Rightarrow> js_error + IFailure option"

record IComponent =
  properties :: "string list"
  checks :: "check list"

datatype Mode = Tagged | All

definition getMode :: "string list \<Rightarrow> Mode" where
  "getMode options =
     (case options of [] \<Rightarrow> Tagged
      | opt # _ \<Rightarrow> if opt = ''all-without-defaults'' then All else Tagged)"

subsection \<open>ComponentTracker\<close>

record ComponentTracker =
  elementQueue :: "IElementTracker list"
  component :: "IComponent option"

definition new_ComponentTracker :: ComponentTracker where
  "new_ComponentTracker = \<lparr>elementQueue = [], component = None\<rparr>"

text \<open>The presence vector that \<^verbatim>\<open>process\<close> builds for a usage.\<close>

definition process_args :: "IComponent \<Rightarrow> IElementTracker \<Rightarrow> bool list" where
  "process_args c tracker = map (\<lambda>property. property \<in> set (tr_properties tracker)) (properties c)"

text \<open>What \<^verbatim>\<open>process\<close> does to the message of a non-null result.\<close>

definition qualify :: "IElementTracker \<Rightarrow> bool \<Rightarrow> IFailure \<Rightarrow> IFailure" where
  "qualify tracker fromElement result =
     result\<lparr>message :=
       (''Component <'' @ el_name (element tracker) @ ''> '' @ message result) @
       (if fromElement
        then '' (declared in '' @ sourceFileName (decorator result) @ '':'' @
             js_num (pos (decorator result)) @ '')''
        else '' (used in '' @ fileName tracker @ '':'' @
             js_num (el_line (element tracker)) @ '')'')\<rparr>"

text \<open>The \<^verbatim>\<open>map\<close> over the checks, left to right; a check that throws ends it.\<close>

fun map_checks ::
  "cn_heap \<Rightarrow> IElementTracker \<Rightarrow> bool \<Rightarrow> bool list \<Rightarrow> check list \<Rightarrow>
   js_error + IFailure option list" where
  "map_checks h tracker fromElement args [] = Inr []"
| "map_checks h tracker fromElement args (check # rest) =
     (case check h args of
        Inl err \<Rightarrow> Inl err
      | Inr result \<Rightarrow>
          (case map_checks h tracker fromElement args rest of
             Inl err \<Rightarrow> Inl err
           | Inr results \<Rightarrow> Inr (map_option (qualify tracker fromElement) result # results)))"

text \<open>\<^verbatim>\<open>.filter(Boolean)\<close> on an array of failures and nulls.\<close>

definition filter_Boolean :: "'a option list \<Rightarrow> 'a list" where
  "filter_Boolean rs = List.map_filter id rs"

definition process ::
  "cn_heap \<Rightarrow> IComponent \<Rightarrow> IElementTracker \<Rightarrow> bool \<Rightarrow> js_error + IFailure list" where
  "process h c tracker fromElement =
     (case map_checks h tracker fromElement (process_args c tracker) (checks c) of
        Inl err \<Rightarrow> Inl err
      | Inr results \<Rightarrow> Inr (filter_Boolean results))"

definition make_record :: "string \<Rightarrow> ElementAst \<Rightarrow> IElementTracker" where
  "make_record file el =
     \<lparr>fileName = file, element = el, tr_properties = el_inputs el @ el_attrs el\<rparr>"

definition CT_addElement ::
  "cn_heap \<Rightarrow> string \<Rightarrow> ElementAst \<Rightarrow> ComponentTracker \<Rightarrow>
   (js_error + IFailure js_ret) \<times> ComponentTracker" where
  "CT_addElement h file el this =
     (case component this of
        Some c \<Rightarrow>
          (case process h c (make_record file el) True of
             Inl err \<Rightarrow> (Inl err, this)
           | Inr failures \<Rightarrow> (Inr (Array failures), this))
      | None \<Rightarrow>
          (Inr Undefined, this\<lparr>elementQueue := elementQueue this @ [make_record file el]\<rparr>))"

text \<open>The \<^verbatim>\<open>map\<close> over the drained queue, followed by the concatenating \<^verbatim>\<open>reduce\<close>.\<close>

fun process_queue ::
  "cn_heap \<Rightarrow> IComponent \<Rightarrow> IElementTracker list \<Rightarrow> js_error + IFailure list" where
  "process_queue h c [] = Inr []"
| "process_queue h c (item # items) =
     (case process h c item False of
        Inl err \<Rightarrow> Inl err
      | Inr failures \<Rightarrow>
          (case process_queue h c items of
             Inl err \<Rightarrow> Inl err
           | Inr others \<Rightarrow> Inr (failures @ others)))"

definition CT_addComponent ::
  "cn_heap \<Rightarrow> IComponent \<Rightarrow> ComponentTracker \<Rightarrow>
   (js_error + IFailure list) \<times> ComponentTracker" where
  "CT_addComponent h c this =
     (process_queue h c (elementQueue this), \<lparr>elementQueue = [], component = Some c\<rparr>)"

subsection \<open>TemplateRequireInputTracker\<close>

definition skippedElements :: "string list" where
  "skippedElements =
     [''div'', ''a'', ''p'', ''span'', ''em'', ''strong'', ''i'', ''b'', ''ul'', ''li'', ''ol'',
      ''header'', ''footer'', ''nav'', ''main'', ''aside'', ''footer'', ''br'', ''img'',
      ''table'', ''thead'', ''tbody'', ''td'', ''th'', ''tr'']"

text \<open>A line terminator, which \<^verbatim>\<open>.\<close> of a regular expression does not match.\<close>

definition is_line_terminator :: "char \<Rightarrow> bool" where
  "is_line_terminator c = (c = CHR 0x0A \<or> c = CHR 0x0D)"

text \<open>\<^verbatim>\<open>/^ng\-.+/.test(name)\<close>, the one regular expression of the skip list.\<close>

definition skipped_pattern :: "string \<Rightarrow> bool" where
  "skipped_pattern name =
     (prefix ''ng-'' name \<and>
      (case drop 3 name of [] \<Rightarrow> False | c # _ \<Rightarrow> \<not> is_line_terminator c))"

type_synonym tags = "string \<rightharpoonup> ComponentTracker"

definition getByName :: "string \<Rightarrow> tags \<Rightarrow> ComponentTracker \<times> tags" where
  "getByName name tgs =
     (case tgs name of
        None \<Rightarrow> (new_ComponentTracker, tgs(name \<mapsto> new_ComponentTracker))
      | Some t \<Rightarrow> (t, tgs))"

definition TRIT_addElement ::
  "cn_heap \<Rightarrow> string \<Rightarrow> ElementAst \<Rightarrow> tags \<Rightarrow> (js_error + IFailure js_ret) \<times> tags" where
  "TRIT_addElement h file el tgs =
     (if el_name el \<in> set skippedElements then (Inr Null, tgs)
      else if skipped_pattern (el_name el) then (Inr Null, tgs)
      else (case getByName (el_name el) tgs of
              (t, tgs') \<Rightarrow>
                (case CT_addElement h file el t of
                   (r, t') \<Rightarrow> (r, tgs'(el_name el \<mapsto> t')))))"

definition TRIT_addComponent ::
  "cn_heap \<Rightarrow> string \<Rightarrow> IComponent \<Rightarrow> tags \<Rightarrow> (js_error + IFailure list) \<times> tags" where
  "TRIT_addComponent h name opts tgs =
     (case getByName name tgs of
        (t, tgs') \<Rightarrow>
          (case CT_addComponent h opts t of
             (r, t') \<Rightarrow> (r, tgs'(name \<mapsto> t'))))"

subsection \<open>TemplateRequireInputsVisitor\<close>

text \<open>A failure as the template visitor creates it: start, width and message.\<close>

record RuleFailure =
  rf_start :: int
  rf_width :: int
  rf_message :: string

text \<open>
  \<^verbatim>\<open>visitElement\<close> calls \<^verbatim>\<open>forEach\<close> on whatever \<^verbatim>\<open>addElement\<close> returned. The
  children of the element are visited by the superclass and arrive as further calls.
\<close>

definition visitElement ::
  "cn_heap \<Rightarrow> string \<Rightarrow> ElementAst \<Rightarrow> tags \<Rightarrow> (js_error + RuleFailure list) \<times> tags" where
  "visitElement h file el tgs =
     (case TRIT_addElement h file el tgs of
        (Inl err, tgs') \<Rightarrow> (Inl err, tgs')
      | (Inr Undefined, tgs') \<Rightarrow> (Inl TypeError, tgs')
      | (Inr Null, tgs') \<Rightarrow> (Inl TypeError, tgs')
      | (Inr (Array failures), tgs') \<Rightarrow>
          (Inr (map (\<lambda>failure.
                  \<lparr>rf_start = el_start el, rf_width = el_end el - el_start el,
                   rf_message = message failure\<rparr>) failures), tgs'))"

subsection \<open>The regular expression of the requiredness marker\<close>

text \<open>
  \<^verbatim>\<open>/@required\s+if\s+(.*?)(\*?\*\/|\n|$)/\<close>, matched as a backtracking matcher does:
  the leftmost start wins, \<^verbatim>\<open>\s+\<close> is greedy and gives characters back one at a time,
  \<^verbatim>\<open>.*?\<close> takes as few characters as it can.
\<close>

definition is_space :: "char \<Rightarrow> bool" where
  "is_space c =
     (c = CHR 0x09 \<or> c = CHR 0x0A \<or> c = CHR 0x0B \<or> c = CHR 0x0C \<or> c = CHR 0x0D \<or>
      c = CHR 0x20 \<or> c = CHR 0xA0)"

text \<open>The closing group \<^verbatim>\<open>(\*?\*\/|\n|$)\<close> at the head of the rest of the text.\<close>

definition closing :: "string \<Rightarrow> bool" where
  "closing s = (prefix ''**/'' s \<or> prefix ''*/'' s \<or> prefix [CHR 0x0A] s \<or> s = [])"

text \<open>\<^verbatim>\<open>(.*?)(\*?\*\/|\n|$)\<close>: the text of the first group.\<close>

fun lazy_group :: "string \<Rightarrow> string option" where
  "lazy_group [] = Some []"
| "lazy_group (c # cs) =
     (if closing (c # cs) then Some []
      else if is_line_terminator c then None
      else map_option ((#) c) (lazy_group cs))"

text \<open>\<^verbatim>\<open>\s*\<close> followed by the continuation \<open>k\<close>.\<close>

fun spaces_then :: "(string \<Rightarrow> 'a option) \<Rightarrow> string \<Rightarrow> 'a option" where
  "spaces_then k [] = k []"
| "spaces_then k (c # cs) =
     (if is_space c
      then (case spaces_then k cs of Some r \<Rightarrow> Some r | None \<Rightarrow> k (c # cs))
      else k (c # cs))"

text \<open>\<^verbatim>\<open>\s+\<close> followed by the continuation \<open>k\<close>.\<close>

definition spaces1_then :: "(string \<Rightarrow> 'a option) \<Rightarrow> string \<Rightarrow> 'a option" where
  "spaces1_then k s =
     (case s of [] \<Rightarrow> None | c # cs \<Rightarrow> if is_space c then spaces_then k cs else None)"

definition match_here :: "string \<Rightarrow> string option" where
  "match_here s =
     (if prefix ''@required'' s
      then spaces1_then
             (\<lambda>r. if prefix ''if'' r then spaces1_then lazy_group (drop 2 r) else None)
             (drop 9 s)
      else None)"

text \<open>
  \<^verbatim>\<open>requiredExpressionRe.exec(text)\<close>: \<open>None\<close> is \<^verbatim>\<open>null\<close>, \<open>Some g\<close> a match
  whose first group is \<open>g\<close>.
\<close>

fun requiredExpressionRe_exec :: "string \<Rightarrow> string option" where
  "requiredExpressionRe_exec [] = match_here []"
| "requiredExpressionRe_exec (c # cs) =
     (case match_here (c # cs) of
        Some g \<Rightarrow> Some g
      | None \<Rightarrow> requiredExpressionRe_exec cs)"

subsection \<open>InputMetadataWalker\<close>

text \<open>\<open>match\<close> is \<^verbatim>\<open>null\<close> when the regular expression found nothing.\<close>

record IPendingInput =
  name :: string
  inputAlias :: string
  required :: bool
  node :: ts_Decorator
  match :: "string option"

text \<open>The truthiness of \<^verbatim>\<open>input.match\<close>, and its text inside a template literal.\<close>

definition truthy :: "string option \<Rightarrow> bool" where
  "truthy m = (case m of None \<Rightarrow> False | Some s \<Rightarrow> s \<noteq> [])"

definition match_text :: "string option \<Rightarrow> string" where
  "match_text m = (case m of None \<Rightarrow> ''null'' | Some s \<Rightarrow> s)"

text \<open>
  A property declaration, as far as the rule reads it: \<^verbatim>\<open>pos\<close>, \<^verbatim>\<open>end\<close>,
  \<^verbatim>\<open>name.getText()\<close> and whether \<^verbatim>\<open>initializer\<close> is defined.
\<close>

record ts_PropertyDeclaration =
  p_pos :: int
  p_end :: int
  p_name :: string
  p_initializer :: bool

record InputMetadataWalker =
  sourceText :: string
  options :: "string list"
  componentName :: "string option"
  inputs :: "IPendingInput list"
  failures :: "(ts_Decorator \<times> string) list"

text \<open>The text around the decorator that \<^verbatim>\<open>visitNgInput\<close> reads.\<close>

definition decoratorText :: "string \<Rightarrow> ts_PropertyDeclaration \<Rightarrow> string" where
  "decoratorText text property =
     js_slice text (p_pos property)
       (p_end property +
        indexOf (js_slice text (p_end property) (int (length text))) (CHR 0x0A))"

definition visitNgInput ::
  "ts_PropertyDeclaration \<Rightarrow> ts_Decorator \<Rightarrow> InputMetadataWalker \<Rightarrow> InputMetadataWalker" where
  "visitNgInput property input this =
     (let dtext = decoratorText (sourceText this) property;
          requiredExpr = requiredExpressionRe_exec dtext;
          ialias =
            (case arguments input of
               StringLiteral text # _ \<Rightarrow> text
             | _ \<Rightarrow> p_name property);
          req =
            (if js_includes dtext ''@required'' then True
             else if getMode (options this) = All then \<not> p_initializer property
             else False)
      in this\<lparr>inputs := inputs this @
           [\<lparr>name = p_name property, inputAlias = ialias, required = req,
             node = input, match = requiredExpr\<rparr>]\<rparr>)"

definition createDefaultMatch ::
  "string list \<Rightarrow> IPendingInput \<Rightarrow> bool list \<Rightarrow> string option" where
  "createDefaultMatch props input =
     (let i = indexOf props (name input)
      in (\<lambda>args.
            if \<not> js_index args i
            then Some (''is missing required input `'' @ inputAlias input @ ''`'')
            else None))"

text \<open>
  \<^verbatim>\<open>tryExec\<close>: \<open>cn\<close> is the walker's \<^verbatim>\<open>componentName\<close> when the call is made,
  \<open>Inl cause\<close> a call that threw an error with that message.
\<close>

definition tryExec :: "string option \<Rightarrow> IPendingInput \<Rightarrow> string + 'a \<Rightarrow> js_error + 'a" where
  "tryExec cn input r =
     (case r of
        Inl cause \<Rightarrow>
          Inl (Error (''Could not evaluate @required directive on '' @ js_str cn @ ''.'' @
                      name input @ '' `'' @ match_text (match input) @ ''`: '' @ cause))
      | Inr v \<Rightarrow> Inr v)"

text \<open>
  The host's \<^verbatim>\<open>new Function(...names, body)\<close> is a parameter: from the parameter
  names and the body it gives the message of the error thrown, or the function; the
  function gives, for the booleans it is applied to, the message of the error it throws
  or the truthiness of what it returns.
\<close>

type_synonym new_Function = "string list \<Rightarrow> string \<Rightarrow> string + (bool list \<Rightarrow> string + bool)"

text \<open>\<open>a\<close> is the address of the walker, \<open>h\<close> the heap when the method is called.\<close>

definition createCustomMatch ::
  "new_Function \<Rightarrow> cn_heap \<Rightarrow> nat \<Rightarrow> string list \<Rightarrow> IPendingInput \<Rightarrow>
   js_error + (cn_heap \<Rightarrow> bool list \<Rightarrow> js_error + string option)" where
  "createCustomMatch nf h a props input =
     (case tryExec (h a) input (nf props (''return '' @ match_text (match input))) of
        Inl err \<Rightarrow> Inl err
      | Inr fn \<Rightarrow>
          Inr (\<lambda>h' args.
                 case tryExec (h' a) input (fn args) of
                   Inl err \<Rightarrow> Inl err
                 | Inr t \<Rightarrow>
                     Inr (if t
                          then Some (''is missing input `'' @ inputAlias input @
                                     ''` required when `'' @ match_text (match input) @ ''`'')
                          else None)))"

text \<open>The closure that \<^verbatim>\<open>pushLast\<close> puts around the checker of a required input.\<close>

definition wrap_checker ::
  "IPendingInput \<Rightarrow> (cn_heap \<Rightarrow> bool list \<Rightarrow> js_error + string option) \<Rightarrow> check" where
  "wrap_checker input checker =
     (\<lambda>h args.
        case checker h args of
          Inl err \<Rightarrow> Inl err
        | Inr errMessage \<Rightarrow>
            Inr (case errMessage of
                   None \<Rightarrow> None
                 | Some m \<Rightarrow>
                     if m = [] then None
                     else Some \<lparr>inputName = name input, decorator = node input, message = m\<rparr>))"

text \<open>The \<^verbatim>\<open>map\<close> of \<^verbatim>\<open>pushLast\<close> over the pending inputs.\<close>

fun makeChecks ::
  "new_Function \<Rightarrow> cn_heap \<Rightarrow> nat \<Rightarrow> string list \<Rightarrow> IPendingInput list \<Rightarrow>
   js_error + check list" where
  "makeChecks nf h a props [] = Inr []"
| "makeChecks nf h a props (input # rest) =
     (if \<not> required input
      then (case makeChecks nf h a props rest of
              Inl err \<Rightarrow> Inl err
            | Inr cs \<Rightarrow> Inr ((\<lambda>h' args. Inr None) # cs))
      else (case (if truthy (match input)
                  then createCustomMatch nf h a props input
                  else Inr (\<lambda>h' args. Inr (createDefaultMatch props input args))) of
              Inl err \<Rightarrow> Inl err
            | Inr checker \<Rightarrow>
                (case makeChecks nf h a props rest of
                   Inl err \<Rightarrow> Inl err
                 | Inr cs \<Rightarrow> Inr (wrap_checker input checker # cs))))"

subsection \<open>A run of the rule\<close>

text \<open>
  One rule object owns the tracker; \<^verbatim>\<open>apply\<close> makes a walker for every source file.
  \<open>walkers\<close> maps the address of a walker to its fields, \<open>reported\<close> collects what the
  template visitors add.
\<close>

record world =
  rule_tracker :: tags
  walkers :: "nat \<Rightarrow> InputMetadataWalker"
  reported :: "RuleFailure list"

definition heap_of :: "world \<Rightarrow> cn_heap" where
  "heap_of w = (\<lambda>a. componentName (walkers w a))"

definition pushLast :: "new_Function \<Rightarrow> nat \<Rightarrow> world \<Rightarrow> js_error option \<times> world" where
  "pushLast nf a w =
     (let this = walkers w a in
      if inputs this = [] then (None, w)
      else
        (let props = map name (inputs this) in
         case makeChecks nf (heap_of w) a props (inputs this) of
           Inl err \<Rightarrow> (Some err, w)
         | Inr cs \<Rightarrow>
             (case TRIT_addComponent (heap_of w) (js_str (componentName this))
                     \<lparr>properties = props, checks = cs\<rparr> (rule_tracker w) of
                (Inl err, tgs) \<Rightarrow> (Some err, w\<lparr>rule_tracker := tgs\<rparr>)
              | (Inr errs, tgs) \<Rightarrow>
                  (None,
                   w\<lparr>rule_tracker := tgs,
                     walkers := (walkers w)
                       (a := this\<lparr>failures :=
                                   failures this @ map (\<lambda>err. (decorator err, message err)) errs,
                                 inputs := []\<rparr>)\<rparr>))))"

text \<open>
  The calls the collaborators make, each on the walker at an address; the template
  visitor's \<^verbatim>\<open>visitElement\<close> comes with the name of the file it is visiting.
\<close>

datatype event =
  VisitClassDeclaration nat
| VisitNgComponent nat "string option"
| VisitNgInput nat ts_PropertyDeclaration ts_Decorator
| VisitEndOfFileToken nat
| VisitElement string ElementAst

fun step :: "new_Function \<Rightarrow> event \<Rightarrow> world \<Rightarrow> js_error option \<times> world" where
  "step nf (VisitClassDeclaration a) w = pushLast nf a w"
| "step nf (VisitNgComponent a selector) w =
     (None, w\<lparr>walkers := (walkers w)(a := (walkers w a)\<lparr>componentName := selector\<rparr>)\<rparr>)"
| "step nf (VisitNgInput a property input) w =
     (None, w\<lparr>walkers := (walkers w)(a := visitNgInput property input (walkers w a))\<rparr>)"
| "step nf (VisitEndOfFileToken a) w = pushLast nf a w"
| "step nf (VisitElement file el) w =
     (case visitElement (heap_of w) file el (rule_tracker w) of
        (Inl err, tgs) \<Rightarrow> (Some err, w\<lparr>rule_tracker := tgs\<rparr>)
      | (Inr fs, tgs) \<Rightarrow> (None, w\<lparr>rule_tracker := tgs, reported := reported w @ fs\<rparr>))"

text \<open>A thrown error ends the run.\<close>

fun run :: "new_Function \<Rightarrow> event list \<Rightarrow> world \<Rightarrow> js_error option \<times> world" where
  "run nf [] w = (None, w)"
| "run nf (ev # evs) w =
     (case step nf ev w of
        (Some err, w') \<Rightarrow> (Some err, w')
      | (None, w') \<Rightarrow> run nf evs w')"

definition new_InputMetadataWalker :: "string \<Rightarrow> string list \<Rightarrow> InputMetadataWalker" where
  "new_InputMetadataWalker text opts =
     \<lparr>sourceText = text, options = opts, componentName = None, inputs = [], failures = []\<rparr>"

subsection \<open>The calls made on one tracker\<close>

text \<open>
  What the collaborators do to the tracker of one tag: usages and declarations, in the
  order of the walk. \<open>returned\<close> is what a caller that tolerates \<^verbatim>\<open>null\<close> and
  \<^verbatim>\<open>undefined\<close> reads from a call.
\<close>

datatype ct_event = Usage string ElementAst | Declaration IComponent

definition returned :: "'a js_ret \<Rightarrow> 'a list" where
  "returned r = (case r of Array xs \<Rightarrow> xs | _ \<Rightarrow> [])"

fun ct_step ::
  "cn_heap \<Rightarrow> ct_event \<Rightarrow> ComponentTracker \<Rightarrow> (js_error + IFailure list) \<times> ComponentTracker" where
  "ct_step h (Usage file el) this =
     (case CT_addElement h file el this of
        (Inl err, this') \<Rightarrow> (Inl err, this')
      | (Inr r, this') \<Rightarrow> (Inr (returned r), this'))"
| "ct_step h (Declaration c) this = CT_addComponent h c this"

fun ct_run ::
  "cn_heap \<Rightarrow> ct_event list \<Rightarrow> ComponentTracker \<Rightarrow> (js_error + IFailure list) \<times> ComponentTracker" where
  "ct_run h [] this = (Inr [], this)"
| "ct_run h (ev # evs) this =
     (case ct_step h ev this of
        (Inl err, this') \<Rightarrow> (Inl err, this')
      | (Inr fs, this') \<Rightarrow>
          (case ct_run h evs this' of
             (Inl err, this'') \<Rightarrow> (Inl err, this'')
           | (Inr gs, this'') \<Rightarrow> (Inr (fs @ gs), this'')))"

text \<open>
  The results of the checks of \<open>c\<close> on a usage that are not \<^verbatim>\<open>null\<close>, as the checks
  return them, before \<^verbatim>\<open>process\<close> rewrites their messages.
\<close>

definition raw_results :: "cn_heap \<Rightarrow> IComponent \<Rightarrow> IElementTracker \<Rightarrow> IFailure list" where
  "raw_results h c tracker =
     List.map_filter
       (\<lambda>check. case check h (process_args c tracker) of Inr (Some r) \<Rightarrow> Some r | _ \<Rightarrow> None)
       (checks c)"

text \<open>No check of \<open>c\<close> throws on the usage.\<close>

definition checks_return :: "cn_heap \<Rightarrow> IComponent \<Rightarrow> IElementTracker \<Rightarrow> bool" where
  "checks_return h c tracker =
     list_all (\<lambda>check. case check h (process_args c tracker) of Inr _ \<Rightarrow> True | Inl _ \<Rightarrow> False)
       (checks c)"

subsection \<open>Concrete inputs\<close>

text \<open>
  A stand-in for the host's \<^verbatim>\<open>Function\<close> constructor on the two shapes of body the
  examples use, \<^verbatim>\<open>return x\<close> and \<^verbatim>\<open>return !x\<close> for a name \<open>x\<close> of lower-case
  letters: a parameter is the truthiness of its argument (the last parameter of a name
  wins), any other name throws when the function runs. Every other body is refused, the
  message of the syntax error shortened to \<^verbatim>\<open>Unexpected token\<close>.
\<close>

definition is_lower_name :: "string \<Rightarrow> bool" where
  "is_lower_name x = (x \<noteq> [] \<and> list_all (\<lambda>c. c \<in> set ''abcdefghijklmnopqrstuvwxyz'') x)"

definition name_value :: "string list \<Rightarrow> string \<Rightarrow> bool list \<Rightarrow> string + bool" where
  "name_value names x args =
     (if x \<in> set names
      then Inr (js_index args (int (length names) - 1 - indexOf (rev names) x))
      else Inl (x @ '' is not defined''))"

definition sample_Function :: new_Function where
  "sample_Function names body =
     (if prefix ''return !'' body \<and> is_lower_name (drop 8 body)
      then Inr (\<lambda>args. map_sum id Not (name_value names (drop 8 body) args))
      else if prefix ''return '' body \<and> is_lower_name (drop 7 body)
      then Inr (\<lambda>args. name_value names (drop 7 body) args)
      else Inl ''Unexpected token'')"

definition no_names :: cn_heap where
  "no_names = (\<lambda>a. None)"

text \<open>\<^verbatim>\<open><foobar></foobar>\<close> and \<^verbatim>\<open><foobar [foo]="42"></foobar>\<close> on line 3 of a template.\<close>

definition foobar_bare :: ElementAst where
  "foobar_bare =
     \<lparr>el_name = ''foobar'', el_inputs = [], el_attrs = [], el_line = 3, el_start = 40,
      el_end = 57\<rparr>"

definition foobar_foo :: ElementAst where
  "foobar_foo =
     \<lparr>el_name = ''foobar'', el_inputs = [''foo''], el_attrs = [], el_line = 3, el_start = 40,
      el_end = 68\<rparr>"

definition div_el :: ElementAst where
  "div_el =
     \<lparr>el_name = ''div'', el_inputs = [], el_attrs = [], el_line = 1, el_start = 0, el_end = 11\<rparr>"

definition ng_content_el :: ElementAst where
  "ng_content_el =
     \<lparr>el_name = ''ng-content'', el_inputs = [], el_attrs = [], el_line = 2, el_start = 12,
      el_end = 37\<rparr>"

text \<open>Two \<^verbatim>\<open>@Input()\<close> decorators of \<^verbatim>\<open>comp.ts\<close>, and one with an alias.\<close>

definition foo_decorator :: ts_Decorator where
  "foo_decorator = \<lparr>sourceFileName = ''comp.ts'', pos = 12, arguments = []\<rparr>"

definition bar_decorator :: ts_Decorator where
  "bar_decorator = \<lparr>sourceFileName = ''comp.ts'', pos = 60, arguments = []\<rparr>"

definition renamed_decorator :: ts_Decorator where
  "renamed_decorator =
     \<lparr>sourceFileName = ''comp.ts'', pos = 12, arguments = [StringLiteral ''renamed-input'']\<rparr>"

text \<open>The pending inputs of \<^verbatim>\<open>foo // @required\<close> and \<^verbatim>\<open>bar // @required if !foo\<close>.\<close>

definition foo_required :: IPendingInput where
  "foo_required =
     \<lparr>name = ''foo'', inputAlias = ''foo'', required = True, node = foo_decorator,
      match = None\<rparr>"

definition foo_optional :: IPendingInput where
  "foo_optional =
     \<lparr>name = ''foo'', inputAlias = ''foo'', required = False, node = foo_decorator,
      match = None\<rparr>"

definition bar_if_not_foo :: IPendingInput where
  "bar_if_not_foo =
     \<lparr>name = ''bar'', inputAlias = ''bar'', required = True, node = bar_decorator,
      match = Some ''!foo''\<rparr>"

definition bar_required :: IPendingInput where
  "bar_required =
     \<lparr>name = ''bar'', inputAlias = ''bar'', required = True, node = bar_decorator,
      match = None\<rparr>"

text \<open>The declarations \<^verbatim>\<open>pushLast\<close> makes of \<open>[foo_required]\<close> and of \<open>[bar_required]\<close>.\<close>

definition requires_foo :: IComponent where
  "requires_foo =
     \<lparr>properties = [''foo''],
      checks = [wrap_checker foo_required
                  (\<lambda>h args. Inr (createDefaultMatch [''foo''] foo_required args))]\<rparr>"

definition requires_bar :: IComponent where
  "requires_bar =
     \<lparr>properties = [''bar''],
      checks = [wrap_checker bar_required
                  (\<lambda>h args. Inr (createDefaultMatch [''bar''] bar_required args))]\<rparr>"

text \<open>A third usage, \<^verbatim>\<open><foobar [bar]="1"></foobar>\<close>, and \<^verbatim>\<open><alpha></alpha>\<close>.\<close>

definition foobar_bar :: ElementAst where
  "foobar_bar =
     \<lparr>el_name = ''foobar'', el_inputs = [''bar''], el_attrs = [], el_line = 3, el_start = 40,
      el_end = 68\<rparr>"

definition alpha_el :: ElementAst where
  "alpha_el =
     \<lparr>el_name = ''alpha'', el_inputs = [], el_attrs = [], el_line = 0, el_start = 0, el_end = 15\<rparr>"

text \<open>
  The failure of \<open>requires_foo\<close> on \<open>foobar_bare\<close> as the check returns it, as a
  drained queue reports it and as an immediate evaluation reports it; the last also for
  \<open>requires_bar\<close>.
\<close>

definition foo_missing :: IFailure where
  "foo_missing =
     \<lparr>inputName = ''foo'', decorator = foo_decorator,
      message = ''is missing required input `foo`''\<rparr>"

definition foo_missing_used :: IFailure where
  "foo_missing_used =
     \<lparr>inputName = ''foo'', decorator = foo_decorator,
      message = ''Component <foobar> is missing required input `foo` (used in app.html:3)''\<rparr>"

definition foo_missing_declared :: IFailure where
  "foo_missing_declared =
     \<lparr>inputName = ''foo'', decorator = foo_decorator,
      message = ''Component <foobar> is missing required input `foo` (declared in comp.ts:12)''\<rparr>"

definition bar_missing_declared :: IFailure where
  "bar_missing_declared =
     \<lparr>inputName = ''bar'', decorator = bar_decorator,
      message = ''Component <foobar> is missing required input `bar` (declared in comp.ts:60)''\<rparr>"

text \<open>
  The checks \<^verbatim>\<open>pushLast\<close> makes of an optional \<^verbatim>\<open>foo\<close> and of
  \<^verbatim>\<open>bar // @required if !foo\<close>, and the failure of the second as its check returns it.
\<close>

definition if_not_foo_checks :: "check list" where
  "if_not_foo_checks =
     (case makeChecks sample_Function no_names 0 [''foo'', ''bar''] [foo_optional, bar_if_not_foo] of
        Inr cs \<Rightarrow> cs | Inl _ \<Rightarrow> [])"

definition if_not_foo_component :: IComponent where
  "if_not_foo_component = \<lparr>properties = [''foo'', ''bar''], checks = if_not_foo_checks\<rparr>"

definition bar_missing_when :: IFailure where
  "bar_missing_when =
     \<lparr>inputName = ''bar'', decorator = bar_decorator,
      message = ''is missing input `bar` required when `!foo`''\<rparr>"

text \<open>
  Source texts of one input each, with the property declaration the parser gives for
  them: an input with a default, and an input without one.
\<close>

definition text_default :: string where
  "text_default = ''@Input() foo = 42;'' @ [CHR 0x0A]"

definition text_bare :: string where
  "text_bare = ''@Input() foo;'' @ [CHR 0x0A]"

definition foo_with_default :: ts_PropertyDeclaration where
  "foo_with_default = \<lparr>p_pos = 0, p_end = 18, p_name = ''foo'', p_initializer = True\<rparr>"

definition foo_without_default :: ts_PropertyDeclaration where
  "foo_without_default = \<lparr>p_pos = 0, p_end = 13, p_name = ''foo'', p_initializer = False\<rparr>"

text \<open>
  A class body of two inputs, \<^verbatim>\<open>foo\<close> with the marker in a line comment behind it and
  \<^verbatim>\<open>bar\<close> with a default and no marker. \<^verbatim>\<open>pos\<close> of a node is its full start, the
  end of the token before it: the comment behind \<^verbatim>\<open>foo\<close> lies between \<^verbatim>\<open>pos\<close> and
  \<^verbatim>\<open>end\<close> of \<^verbatim>\<open>bar\<close>, whose own text starts at offset 27.
\<close>

definition two_inputs_text :: string where
  "two_inputs_text =
     ''@Input() foo; // @required'' @ [CHR 0x0A] @ ''@Input() bar = 1;'' @ [CHR 0x0A]"

definition foo_marked :: ts_PropertyDeclaration where
  "foo_marked = \<lparr>p_pos = 0, p_end = 13, p_name = ''foo'', p_initializer = False\<rparr>"

definition bar_defaulted :: ts_PropertyDeclaration where
  "bar_defaulted = \<lparr>p_pos = 13, p_end = 44, p_name = ''bar'', p_initializer = True\<rparr>"

text \<open>
  Inputs whose marker carries an expression: \<^verbatim>\<open>nope\<close> compiles and throws when it is
  evaluated, \<^verbatim>\<open>!\<close> does not compile. \<open>two_components\<close> is the walk over a file that
  declares the component \<^verbatim>\<open>alpha\<close> with such an input and then a component
  \<^verbatim>\<open>beta\<close> whose template uses \<^verbatim>\<open><alpha>\<close>; \<open>one_component\<close> the walk over a
  file with the first component alone.
\<close>

definition nope_text :: string where
  "nope_text = ''@Input() x; // @required if nope'' @ [CHR 0x0A]"

definition bang_text :: string where
  "bang_text = ''@Input() x; // @required if !'' @ [CHR 0x0A]"

definition x_property :: ts_PropertyDeclaration where
  "x_property = \<lparr>p_pos = 0, p_end = 11, p_name = ''x'', p_initializer = False\<rparr>"

definition x_decorator :: ts_Decorator where
  "x_decorator = \<lparr>sourceFileName = ''two.ts'', pos = 0, arguments = []\<rparr>"

definition initial_world :: "string \<Rightarrow> string list \<Rightarrow> world" where
  "initial_world src opts =
     \<lparr>rule_tracker = Map.empty, walkers = (\<lambda>a. new_InputMetadataWalker src opts), reported = []\<rparr>"

definition two_components :: "event list" where
  "two_components =
     [VisitClassDeclaration 0, VisitNgComponent 0 (Some ''alpha''),
      VisitNgInput 0 x_property x_decorator,
      VisitClassDeclaration 0, VisitNgComponent 0 (Some ''beta''),
      VisitElement ''two.ts'' alpha_el]"

definition one_component :: "event list" where
  "one_component =
     [VisitClassDeclaration 0, VisitNgComponent 0 (Some ''alpha''),
      VisitNgInput 0 x_property x_decorator, VisitEndOfFileToken 0]"

section \<open>Auxiliary facts\<close>

subsection \<open>Numbers, indices and filters\<close>

lemma js_num_12: "js_num 12 = ''12''" by (simp add: js_num_def digits.simps)

lemma js_num_3: "js_num 3 = ''3''" by (simp add: js_num_def digits.simps)

lemma js_num_60: "js_num 60 = ''60''" by (simp add: js_num_def digits.simps)

lemma indexOf_nonneg_iff: "0 \<le> indexOf xs x \<longleftrightarrow> x \<in> set xs"
  by (induction xs) (auto simp: Let_def)

lemma indexOf_member:
  "x \<in> set xs \<Longrightarrow> nat (indexOf xs x) < length xs \<and> xs ! nat (indexOf xs x) = x"
proof (induction xs)
  case Nil
  then show ?case by simp
next
  case (Cons y ys)
  show ?case
  proof (cases "y = x")
    case True
    then show ?thesis by simp
  next
    case False
    with Cons.prems have m: "x \<in> set ys" by simp
    then have n: "0 \<le> indexOf ys x" by (simp add: indexOf_nonneg_iff)
    from Cons.IH [OF m] n False show ?thesis
      by (simp add: Let_def nat_add_distrib)
  qed
qed

lemma js_index_presence:
  "x \<in> set props \<Longrightarrow> js_index (map f props) (indexOf props x) = f x"
  using indexOf_member [of x props] indexOf_nonneg_iff [of props x]
  by (simp add: js_index_def)

lemma filter_Boolean_Cons:
  "filter_Boolean (x # xs) = (case x of None \<Rightarrow> filter_Boolean xs | Some y \<Rightarrow> y # filter_Boolean xs)"
  by (simp add: filter_Boolean_def List.map_filter_def split: option.splits)

lemma filter_Boolean_Nil: "filter_Boolean [] = []"
  by (simp add: filter_Boolean_def List.map_filter_def)

lemma set_map_filter: "set (List.map_filter f xs) = {y. \<exists>x \<in> set xs. f x = Some y}"
  by (induction xs) (auto simp: List.map_filter_def)

subsection \<open>What process returns\<close>

lemma map_checks_Inr:
  "map_checks h t b args cs = Inr rs \<Longrightarrow>
   list_all (\<lambda>check. case check h args of Inr _ \<Rightarrow> True | Inl _ \<Rightarrow> False) cs \<and>
   filter_Boolean rs =
     map (qualify t b)
       (List.map_filter (\<lambda>check. case check h args of Inr (Some r) \<Rightarrow> Some r | _ \<Rightarrow> None) cs)"
proof (induction cs arbitrary: rs)
  case Nil
  then show ?case by (simp add: filter_Boolean_Nil List.map_filter_def)
next
  case (Cons check cs)
  from Cons.prems obtain result rest where
    c: "check h args = Inr result" and
    r: "map_checks h t b args cs = Inr rest" and
    rs: "rs = map_option (qualify t b) result # rest"
    by (auto split: sum.splits)
  from Cons.IH [OF r] show ?case
    using c rs by (cases result) (simp_all add: filter_Boolean_Cons List.map_filter_def)
qed

lemma map_checks_total:
  "list_all (\<lambda>check. case check h args of Inr _ \<Rightarrow> True | Inl _ \<Rightarrow> False) cs \<Longrightarrow>
   \<exists>rs. map_checks h t b args cs = Inr rs"
  by (induction cs) (auto split: sum.splits)

lemma process_Inr:
  "process h c t b = Inr fs \<Longrightarrow>
   checks_return h c t \<and> fs = map (qualify t b) (raw_results h c t)"
  using map_checks_Inr [of h t b "process_args c t" "checks c"]
  by (auto simp: process_def checks_return_def raw_results_def split: sum.splits)

lemma process_return:
  "checks_return h c t \<Longrightarrow> process h c t b = Inr (map (qualify t b) (raw_results h c t))"
proof -
  assume a: "checks_return h c t"
  then obtain rs where "map_checks h t b (process_args c t) (checks c) = Inr rs"
    using map_checks_total unfolding checks_return_def by blast
  then have "\<exists>fs. process h c t b = Inr fs" by (simp add: process_def)
  then show ?thesis using process_Inr by blast
qed

lemma process_queue_Inr:
  "process_queue h c q = Inr fs \<Longrightarrow>
   list_all (checks_return h c) q \<and>
   fs = concat (map (\<lambda>t. map (qualify t False) (raw_results h c t)) q)"
proof (induction q arbitrary: fs)
  case Nil
  then show ?case by simp
next
  case (Cons t q)
  from Cons.prems obtain f1 f2 where
    p: "process h c t False = Inr f1" and
    r: "process_queue h c q = Inr f2" and
    fs: "fs = f1 @ f2"
    by (auto split: sum.splits)
  from process_Inr [OF p] Cons.IH [OF r] fs show ?case by simp
qed

lemma process_queue_return:
  "list_all (checks_return h c) q \<Longrightarrow>
   process_queue h c q = Inr (concat (map (\<lambda>t. map (qualify t False) (raw_results h c t)) q))"
  by (induction q) (simp_all add: process_return)

lemma raw_results_member:
  "check \<in> set (checks c) \<Longrightarrow> check h (process_args c t) = Inr (Some r) \<Longrightarrow>
   r \<in> set (raw_results h c t)"
  by (auto simp: raw_results_def set_map_filter intro!: bexI [of _ check])

subsection \<open>Runs of one tracker\<close>

lemma ct_run_usages_unresolved:
  "component this = None \<Longrightarrow>
   ct_run h (map (\<lambda>(fl, el). Usage fl el) us) this =
   (Inr [], this\<lparr>elementQueue := elementQueue this @ map (\<lambda>(fl, el). make_record fl el) us\<rparr>)"
proof (induction us arbitrary: this)
  case Nil
  then show ?case by simp
next
  case (Cons u us)
  obtain fl el where u: "u = (fl, el)" by (cases u)
  let ?this' = "this\<lparr>elementQueue := elementQueue this @ [make_record fl el]\<rparr>"
  have s: "ct_step h (Usage fl el) this = (Inr [], ?this')"
    using Cons.prems by (simp add: CT_addElement_def returned_def)
  have "component ?this' = None" using Cons.prems by simp
  from Cons.IH [OF this] show ?case using s u by simp
qed

lemma ct_run_usages_resolved:
  "component this = Some c \<Longrightarrow>
   list_all (\<lambda>(fl, el). checks_return h c (make_record fl el)) us \<Longrightarrow>
   ct_run h (map (\<lambda>(fl, el). Usage fl el) us) this =
   (Inr (concat (map (\<lambda>(fl, el). map (qualify (make_record fl el) True)
                                   (raw_results h c (make_record fl el))) us)), this)"
proof (induction us)
  case Nil
  then show ?case by simp
next
  case (Cons u us)
  obtain fl el where u: "u = (fl, el)" by (cases u)
  have r: "checks_return h c (make_record fl el)" using Cons.prems(2) u by simp
  have s: "ct_step h (Usage fl el) this =
           (Inr (map (qualify (make_record fl el) True) (raw_results h c (make_record fl el))), this)"
    using Cons.prems(1) by (simp add: CT_addElement_def returned_def process_return [OF r])
  from Cons.IH [OF Cons.prems(1)] Cons.prems(2) show ?case using s u by simp
qed

lemma ct_run_append:
  "ct_run h (evs1 @ evs2) this =
   (case ct_run h evs1 this of
      (Inl err, this') \<Rightarrow> (Inl err, this')
    | (Inr fs, this') \<Rightarrow>
        (case ct_run h evs2 this' of
           (Inl err, this'') \<Rightarrow> (Inl err, this'')
         | (Inr gs, this'') \<Rightarrow> (Inr (fs @ gs), this'')))"
  by (induction evs1 arbitrary: this) (auto split: prod.splits sum.splits)

subsection \<open>The checks pushLast makes\<close>

lemma makeChecks_length:
  "makeChecks nf h a props ins = Inr cs \<Longrightarrow> length cs = length ins"
  by (induction ins arbitrary: cs) (auto split: if_splits sum.splits)

lemma makeChecks_optional:
  "makeChecks nf h a props ins = Inr cs \<Longrightarrow> k < length ins \<Longrightarrow> \<not> required (ins ! k) \<Longrightarrow>
   cs ! k = (\<lambda>h' args. Inr None)"
proof (induction ins arbitrary: cs k)
  case Nil
  then show ?case by simp
next
  case (Cons i ins)
  from Cons.prems(1) obtain c cs' where cs: "cs = c # cs'" and
    r: "makeChecks nf h a props ins = Inr cs'"
    by (auto split: if_splits sum.splits)
  show ?case
  proof (cases k)
    case 0
    with Cons.prems cs show ?thesis by (auto split: if_splits sum.splits)
  next
    case (Suc j)
    with Cons.prems cs Cons.IH [OF r, of j] show ?thesis by simp
  qed
qed

lemma makeChecks_default:
  "makeChecks nf h a props ins = Inr cs \<Longrightarrow> k < length ins \<Longrightarrow> required (ins ! k) \<Longrightarrow>
   \<not> truthy (match (ins ! k)) \<Longrightarrow>
   cs ! k = wrap_checker (ins ! k) (\<lambda>h' args. Inr (createDefaultMatch props (ins ! k) args))"
proof (induction ins arbitrary: cs k)
  case Nil
  then show ?case by simp
next
  case (Cons i ins)
  from Cons.prems(1) obtain c cs' where cs: "cs = c # cs'" and
    r: "makeChecks nf h a props ins = Inr cs'"
    by (auto split: if_splits sum.splits)
  show ?case
  proof (cases k)
    case 0
    with Cons.prems cs show ?thesis by (auto split: if_splits sum.splits)
  next
    case (Suc j)
    with Cons.prems cs Cons.IH [OF r, of j] show ?thesis by simp
  qed
qed

lemma makeChecks_custom:
  "makeChecks nf h a props ins = Inr cs \<Longrightarrow> k < length ins \<Longrightarrow> required (ins ! k) \<Longrightarrow>
   truthy (match (ins ! k)) \<Longrightarrow>
   \<exists>checker. createCustomMatch nf h a props (ins ! k) = Inr checker \<and>
             cs ! k = wrap_checker (ins ! k) checker"
proof (induction ins arbitrary: cs k)
  case Nil
  then show ?case by simp
next
  case (Cons i ins)
  from Cons.prems(1) obtain c cs' where cs: "cs = c # cs'" and
    r: "makeChecks nf h a props ins = Inr cs'"
    by (auto split: if_splits sum.splits)
  show ?case
  proof (cases k)
    case 0
    with Cons.prems cs show ?thesis by (auto split: if_splits sum.splits)
  next
    case (Suc j)
    with Cons.prems cs Cons.IH [OF r, of j] show ?thesis by simp
  qed
qed

lemma createCustomMatch_Inr:
  "createCustomMatch nf h a props input = Inr checker \<Longrightarrow>
   \<exists>fn. nf props (''return '' @ match_text (match input)) = Inr fn \<and>
        checker = (\<lambda>h' args.
                 case tryExec (h' a) input (fn args) of
                   Inl err \<Rightarrow> Inl err
                 | Inr t \<Rightarrow>
                     Inr (if t
                          then Some (''is missing input `'' @ inputAlias input @
                                     ''` required when `'' @ match_text (match input) @ ''`'')
                          else None))"
  by (auto simp: createCustomMatch_def tryExec_def split: sum.splits)

lemma makeChecks_expression:
  assumes "makeChecks nf h0 a (map name ins) ins = Inr cs"
    and "k < length ins"
    and "required (ins ! k)"
    and "match (ins ! k) = Some expr"
    and "expr \<noteq> []"
  shows "\<exists>fn. nf (map name ins) (''return '' @ expr) = Inr fn \<and>
           (\<forall>h args. (cs ! k) h args =
              (case fn args of
                 Inl cause \<Rightarrow>
                   Inl (Error (''Could not evaluate @required directive on '' @ js_str (h a) @
                               ''.'' @ name (ins ! k) @ '' `'' @ expr @ ''`: '' @ cause))
               | Inr t \<Rightarrow>
                   Inr (if t
                        then Some \<lparr>inputName = name (ins ! k), decorator = node (ins ! k),
                                   message = ''is missing input `'' @ inputAlias (ins ! k) @
                                             ''` required when `'' @ expr @ ''`''\<rparr>
                        else None)))"
proof -
  have t: "truthy (match (ins ! k))" using assms(4,5) by (simp add: truthy_def)
  from makeChecks_custom [OF assms(1-3) t] obtain checker where
    c: "createCustomMatch nf h0 a (map name ins) (ins ! k) = Inr checker" and
    w: "cs ! k = wrap_checker (ins ! k) checker" by blast
  from createCustomMatch_Inr [OF c] obtain fn where
    f: "nf (map name ins) (''return '' @ match_text (match (ins ! k))) = Inr fn" and
    d: "checker = (\<lambda>h' args.
                 case tryExec (h' a) (ins ! k) (fn args) of
                   Inl err \<Rightarrow> Inl err
                 | Inr t \<Rightarrow>
                     Inr (if t
                          then Some (''is missing input `'' @ inputAlias (ins ! k) @
                                     ''` required when `'' @ match_text (match (ins ! k)) @ ''`'')
                          else None))" by blast
  have "\<forall>h args. (cs ! k) h args =
              (case fn args of
                 Inl cause \<Rightarrow>
                   Inl (Error (''Could not evaluate @required directive on '' @ js_str (h a) @
                               ''.'' @ name (ins ! k) @ '' `'' @ expr @ ''`: '' @ cause))
               | Inr t \<Rightarrow>
                   Inr (if t
                        then Some \<lparr>inputName = name (ins ! k), decorator = node (ins ! k),
                                   message = ''is missing input `'' @ inputAlias (ins ! k) @
                                             ''` required when `'' @ expr @ ''`''\<rparr>
                        else None))"
    using assms(4) by (simp add: w d wrap_checker_def tryExec_def match_text_def split: sum.splits)
  with f assms(4) show ?thesis by (simp add: match_text_def)
qed

subsection \<open>An expression implies the marker\<close>

text \<open>
  The regular expression matches only where the text has \<^verbatim>\<open>@required\<close>, so an input
  that \<^verbatim>\<open>visitNgInput\<close> gives an expression is required in both modes.
\<close>

lemma match_here_prefix: "match_here s = Some g \<Longrightarrow> prefix ''@required'' s"
  by (simp add: match_here_def split: if_splits)

lemma exec_includes_marker:
  "requiredExpressionRe_exec s = Some g \<Longrightarrow> js_includes s ''@required''"
proof (induction s)
  case Nil
  then show ?case by (simp add: match_here_def)
next
  case (Cons c cs)
  show ?case
  proof (cases "match_here (c # cs)")
    case None
    with Cons show ?thesis by simp
  next
    case (Some g')
    from match_here_prefix [OF this] show ?thesis by simp
  qed
qed

lemma visitNgInput_expression_required:
  "match (last (inputs (visitNgInput property input this))) = Some g \<Longrightarrow>
   required (last (inputs (visitNgInput property input this)))"
  by (auto simp: visitNgInput_def Let_def dest: exec_includes_marker)

subsection \<open>Requiredness in the all-without-defaults mode\<close>

text \<open>
  What \<^verbatim>\<open>visitNgInput\<close> computes in this mode: the marker is looked for in the whole
  text between \<^verbatim>\<open>pos\<close> of the property and the end of its last line.
\<close>

lemma visitNgInput_required_All:
  assumes "getMode (options this) = All"
  shows "required (last (inputs (visitNgInput property input this))) =
           (js_includes (decoratorText (sourceText this) property) ''@required'' \<or>
            \<not> p_initializer property)"
  using assms by (simp add: visitNgInput_def Let_def)

subsection \<open>The concrete inputs evaluated\<close>

lemma requires_foo_returns: "checks_return h requires_foo t"
  by (simp add: checks_return_def requires_foo_def wrap_checker_def)

lemma raw_requires_foo_bare:
  "raw_results h requires_foo (make_record fl foobar_bare) = [foo_missing]"
  by (simp add: raw_results_def requires_foo_def process_args_def make_record_def foobar_bare_def
      wrap_checker_def createDefaultMatch_def js_index_def foo_required_def List.map_filter_def
      foo_missing_def)

lemma raw_requires_foo_foo:
  "raw_results h requires_foo (make_record fl foobar_foo) = []"
  by (simp add: raw_results_def requires_foo_def process_args_def make_record_def foobar_foo_def
      wrap_checker_def createDefaultMatch_def js_index_def foo_required_def List.map_filter_def)

lemma qualify_foo_used:
  "qualify (make_record ''app.html'' foobar_bare) False foo_missing = foo_missing_used"
  by (simp add: qualify_def make_record_def foobar_bare_def foo_missing_def foo_missing_used_def
      js_num_3)

lemma qualify_foo_declared:
  "qualify (make_record fl foobar_bare) True foo_missing = foo_missing_declared"
  by (simp add: qualify_def make_record_def foobar_bare_def foo_missing_def
      foo_missing_declared_def foo_decorator_def js_num_12)

lemma process_foo_declared:
  "process h requires_foo (make_record fl foobar_bare) True = Inr [foo_missing_declared]"
  by (simp add: process_return [OF requires_foo_returns] raw_requires_foo_bare
      qualify_foo_declared)

lemma process_bar_declared:
  "process h requires_bar (make_record fl foobar_bare) True = Inr [bar_missing_declared]"
  by (simp add: process_def requires_bar_def process_args_def make_record_def foobar_bare_def
      wrap_checker_def createDefaultMatch_def js_index_def bar_required_def filter_Boolean_def
      List.map_filter_def qualify_def bar_decorator_def js_num_60 bar_missing_declared_def)

lemma sample_not_foo:
  "sample_Function [''foo'', ''bar''] ''return !foo'' =
   Inr (\<lambda>args. map_sum id Not (name_value [''foo'', ''bar''] ''foo'' args))"
  by (simp add: sample_Function_def is_lower_name_def)

lemma name_value_foo:
  "name_value [''foo'', ''bar''] ''foo'' [x, y] = Inr x"
  by (simp add: name_value_def js_index_def)

lemma if_not_foo_made:
  "makeChecks sample_Function no_names 0 (map name [foo_optional, bar_if_not_foo])
     [foo_optional, bar_if_not_foo] = Inr if_not_foo_checks"
  by (simp add: if_not_foo_checks_def foo_optional_def bar_if_not_foo_def truthy_def
      createCustomMatch_def tryExec_def match_text_def sample_not_foo)

section \<open>Order of usages and declaration\<close>

text \<open>
  C1, amended. Take one declaration \<open>c\<close>, the usages \<open>us1\<close> that the walk reaches before
  it and the usages \<open>us2\<close> that it reaches after it, no check of \<open>c\<close> throwing on
  them. Every usage is evaluated exactly once: the usages of \<open>us1\<close> when the declaration
  is registered, the usages of \<open>us2\<close> immediately, and the queue is empty afterwards.
  Wherever a usage stands, its failures are the non-null results of the checks on its
  presence vector, with the same input names, decorators and message bodies; the order
  decides the qualifier that ends the message, \<^verbatim>\<open>(used in file:line)\<close> of the usage for
  a usage before the declaration and \<^verbatim>\<open>(declared in file:pos)\<close> of the decorator for a
  usage after it. The claim as stated, with identical message texts in every order, does
  not hold.
\<close>

theorem usages_evaluated_once:
  assumes "list_all (\<lambda>(fl, el). checks_return h c (make_record fl el)) (us1 @ us2)"
  shows "ct_run h (map (\<lambda>(fl, el). Usage fl el) us1 @ Declaration c #
                   map (\<lambda>(fl, el). Usage fl el) us2) new_ComponentTracker =
         (Inr (concat (map (\<lambda>(fl, el). map (qualify (make_record fl el) False)
                                           (raw_results h c (make_record fl el))) us1) @
               concat (map (\<lambda>(fl, el). map (qualify (make_record fl el) True)
                                           (raw_results h c (make_record fl el))) us2)),
          \<lparr>elementQueue = [], component = Some c\<rparr>)"
proof -
  let ?q = "map (\<lambda>(fl, el). make_record fl el) us1"
  have a1: "list_all (checks_return h c) ?q"
    using assms by (simp add: list_all_iff split_beta)
  have a2: "list_all (\<lambda>(fl, el). checks_return h c (make_record fl el)) us2"
    using assms by simp
  have before: "ct_run h (map (\<lambda>(fl, el). Usage fl el) us1) new_ComponentTracker =
                (Inr [], \<lparr>elementQueue = ?q, component = None\<rparr>)"
    using ct_run_usages_unresolved [of new_ComponentTracker h us1]
    by (simp add: new_ComponentTracker_def)
  have drain: "ct_step h (Declaration c) \<lparr>elementQueue = ?q, component = None\<rparr> =
               (Inr (concat (map (\<lambda>t. map (qualify t False) (raw_results h c t)) ?q)),
                \<lparr>elementQueue = [], component = Some c\<rparr>)"
    by (simp add: CT_addComponent_def process_queue_return [OF a1])
  have after: "ct_run h (map (\<lambda>(fl, el). Usage fl el) us2) \<lparr>elementQueue = [], component = Some c\<rparr> =
               (Inr (concat (map (\<lambda>(fl, el). map (qualify (make_record fl el) True)
                                   (raw_results h c (make_record fl el))) us2)),
                \<lparr>elementQueue = [], component = Some c\<rparr>)"
    using ct_run_usages_resolved [OF _ a2, of "\<lparr>elementQueue = [], component = Some c\<rparr>"] by simp
  have q: "concat (map (\<lambda>t. map (qualify t False) (raw_results h c t)) ?q) =
           concat (map (\<lambda>(fl, el). map (qualify (make_record fl el) False)
                                      (raw_results h c (make_record fl el))) us1)"
    by (simp add: comp_def case_prod_unfold)
  show ?thesis
    by (simp only: ct_run_append before ct_run.simps drain after q prod.case sum.case append_Nil)
qed

theorem usages_evaluated_once_witness:
  "ct_run no_names
     [Usage ''app.html'' foobar_bare, Declaration requires_foo,
      Usage ''app.html'' foobar_bare, Usage ''app.html'' foobar_foo] new_ComponentTracker =
   (Inr [foo_missing_used, foo_missing_declared],
    \<lparr>elementQueue = [], component = Some requires_foo\<rparr>)"
  using usages_evaluated_once [where h = no_names and c = requires_foo
      and ?us1.0 = "[(''app.html'', foobar_bare)]"
      and ?us2.0 = "[(''app.html'', foobar_bare), (''app.html'', foobar_foo)]"]
  by (simp add: requires_foo_returns raw_requires_foo_bare raw_requires_foo_foo
      qualify_foo_used qualify_foo_declared)

text \<open>
  The same usage and declaration in the two orders: the messages differ, so the sets of
  reported failures differ.
\<close>

theorem order_changes_messages_counterexample:
  "fst (ct_run no_names [Usage ''app.html'' foobar_bare, Declaration requires_foo]
          new_ComponentTracker) = Inr [foo_missing_used] \<and>
   fst (ct_run no_names [Declaration requires_foo, Usage ''app.html'' foobar_bare]
          new_ComponentTracker) = Inr [foo_missing_declared] \<and>
   set [foo_missing_used] \<noteq> set [foo_missing_declared]"
proof -
  have a: "fst (ct_run no_names [Usage ''app.html'' foobar_bare, Declaration requires_foo]
          new_ComponentTracker) = Inr [foo_missing_used]"
    by (simp add: new_ComponentTracker_def CT_addElement_def CT_addComponent_def returned_def
        process_return [OF requires_foo_returns] raw_requires_foo_bare qualify_foo_used)
  have b: "fst (ct_run no_names [Declaration requires_foo, Usage ''app.html'' foobar_bare]
          new_ComponentTracker) = Inr [foo_missing_declared]"
    by (simp add: new_ComponentTracker_def CT_addElement_def CT_addComponent_def returned_def
        process_return [OF requires_foo_returns] raw_requires_foo_bare qualify_foo_declared)
  have c: "set [foo_missing_used] \<noteq> set [foo_missing_declared]"
    by (simp add: foo_missing_used_def foo_missing_declared_def)
  from a b c show ?thesis by blast
qed

section \<open>The text of a failure message\<close>

text \<open>
  C2, amended. Every failure that is reported is a non-null result of a check with its
  message rewritten: the message is prefixed with \<^verbatim>\<open>Component <tag>\<close> and the check's
  own text, and it ends with \<^verbatim>\<open>(used in file:line)\<close>, the file and line of the usage,
  when the usage was drained from the queue by its declaration, but with
  \<^verbatim>\<open>(declared in file:pos)\<close>, the file and position of the input's decorator, when the
  usage was evaluated immediately. The claim as stated, with the usage's qualifier in both
  cases, does not hold.
\<close>

theorem failure_messages:
  "(process_queue h c (elementQueue this) = Inr fs \<longrightarrow>
      fst (CT_addComponent h c this) = Inr fs \<and>
      (\<forall>f \<in> set fs. \<exists>t \<in> set (elementQueue this). \<exists>r \<in> set (raw_results h c t).
         f = r\<lparr>message := ''Component <'' @ el_name (element t) @ ''> '' @ message r @
                  '' (used in '' @ fileName t @ '':'' @ js_num (el_line (element t)) @ '')''\<rparr>)) \<and>
   (component this = Some c \<and> process h c (make_record fl el) True = Inr fs \<longrightarrow>
      fst (CT_addElement h fl el this) = Inr (Array fs) \<and>
      (\<forall>f \<in> set fs. \<exists>r \<in> set (raw_results h c (make_record fl el)).
         f = r\<lparr>message := ''Component <'' @ el_name el @ ''> '' @ message r @
                  '' (declared in '' @ sourceFileName (decorator r) @ '':'' @
                  js_num (pos (decorator r)) @ '')''\<rparr>))"
proof (intro conjI impI)
  assume p: "process_queue h c (elementQueue this) = Inr fs"
  show "fst (CT_addComponent h c this) = Inr fs"
    using p by (simp add: CT_addComponent_def)
  show "\<forall>f \<in> set fs. \<exists>t \<in> set (elementQueue this). \<exists>r \<in> set (raw_results h c t).
         f = r\<lparr>message := ''Component <'' @ el_name (element t) @ ''> '' @ message r @
                  '' (used in '' @ fileName t @ '':'' @ js_num (el_line (element t)) @ '')''\<rparr>"
    using process_queue_Inr [OF p] by (auto simp: qualify_def)
next
  assume a: "component this = Some c \<and> process h c (make_record fl el) True = Inr fs"
  show "fst (CT_addElement h fl el this) = Inr (Array fs)"
    using a by (simp add: CT_addElement_def)
  show "\<forall>f \<in> set fs. \<exists>r \<in> set (raw_results h c (make_record fl el)).
         f = r\<lparr>message := ''Component <'' @ el_name el @ ''> '' @ message r @
                  '' (declared in '' @ sourceFileName (decorator r) @ '':'' @
                  js_num (pos (decorator r)) @ '')''\<rparr>"
    using process_Inr [of h c "make_record fl el" True fs] a
    by (auto simp: qualify_def make_record_def)
qed

theorem failure_messages_witness:
  "fst (CT_addComponent no_names requires_foo
          \<lparr>elementQueue = [make_record ''app.html'' foobar_bare], component = None\<rparr>) =
     Inr [foo_missing_used] \<and>
   fst (CT_addElement no_names ''app.html'' foobar_bare
          \<lparr>elementQueue = [], component = Some requires_foo\<rparr>) =
     Inr (Array [foo_missing_declared])"
proof -
  have q: "process_queue no_names requires_foo
             (elementQueue \<lparr>elementQueue = [make_record ''app.html'' foobar_bare], component = None\<rparr>) =
           Inr [foo_missing_used]"
    by (simp add: process_return [OF requires_foo_returns] raw_requires_foo_bare qualify_foo_used)
  have p: "component \<lparr>elementQueue = [], component = Some requires_foo\<rparr> = Some requires_foo \<and>
           process no_names requires_foo (make_record ''app.html'' foobar_bare) True =
           Inr [foo_missing_declared]"
    by (simp add: process_return [OF requires_foo_returns] raw_requires_foo_bare
        qualify_foo_declared)
  show ?thesis
    using failure_messages [where h = no_names and c = requires_foo and fs = "[foo_missing_used]"
        and this = "\<lparr>elementQueue = [make_record ''app.html'' foobar_bare], component = None\<rparr>"]
      failure_messages [where h = no_names and c = requires_foo
        and fs = "[foo_missing_declared]" and fl = "''app.html''" and el = foobar_bare
        and this = "\<lparr>elementQueue = [], component = Some requires_foo\<rparr>"]
      q p by blast
qed

text \<open>
  A usage evaluated after its declaration: the message names the declaration, not the
  usage.
\<close>

theorem immediate_usage_names_declaration_counterexample:
  "fst (CT_addElement no_names ''app.html'' foobar_bare
          (snd (CT_addComponent no_names requires_foo new_ComponentTracker))) =
     Inr (Array [foo_missing_declared]) \<and>
   message foo_missing_declared =
     ''Component <foobar> is missing required input `foo` (declared in comp.ts:12)'' \<and>
   \<not> suffix ''(used in app.html:3)'' (message foo_missing_declared)"
  by (simp add: new_ComponentTracker_def CT_addElement_def CT_addComponent_def
      process_return [OF requires_foo_returns] raw_requires_foo_bare qualify_foo_declared
      foo_missing_declared_def suffix_to_prefix)

section \<open>A second declaration of a tag\<close>

text \<open>
  C3, amended. A tracker holds at most one declaration, and a usage never changes or
  clears it; but a declaration that is registered always becomes the one in effect, also
  when another was registered before: the usages that follow are evaluated against the
  checks of the latest declaration. The claim as stated, that the first declaration stays
  in effect, does not hold.
\<close>

theorem later_declaration_replaces:
  "component (snd (CT_addComponent h c this)) = Some c \<and>
   component (snd (CT_addElement h fl el this)) = component this \<and>
   fst (CT_addElement h' fl el (snd (CT_addComponent h c this))) =
     (case process h' c (make_record fl el) True of
        Inl err \<Rightarrow> Inl err | Inr fs \<Rightarrow> Inr (Array fs))"
  by (simp add: CT_addComponent_def CT_addElement_def split: option.splits sum.splits)

theorem later_declaration_replaces_witness:
  "fst (CT_addElement no_names ''app.html'' foobar_bare
         (snd (CT_addComponent no_names requires_bar
            (snd (CT_addComponent no_names requires_foo new_ComponentTracker))))) =
   Inr (Array [bar_missing_declared])"
  using later_declaration_replaces [where h = no_names and c = requires_bar and h' = no_names
      and this = "snd (CT_addComponent no_names requires_foo new_ComponentTracker)"
      and fl = "''app.html''" and el = foobar_bare]
  by (simp add: process_bar_declared)

text \<open>
  Two declarations of \<^verbatim>\<open>foobar\<close>, the first requiring \<^verbatim>\<open>foo\<close> and the second
  \<^verbatim>\<open>bar\<close>: a usage after both is checked for \<^verbatim>\<open>bar\<close>, not for \<^verbatim>\<open>foo\<close>.
\<close>

theorem first_declaration_kept_counterexample:
  "fst (CT_addElement no_names ''app.html'' foobar_bare
         (snd (CT_addComponent no_names requires_foo new_ComponentTracker))) =
     Inr (Array [foo_missing_declared]) \<and>
   fst (CT_addElement no_names ''app.html'' foobar_bare
         (snd (CT_addComponent no_names requires_bar
            (snd (CT_addComponent no_names requires_foo new_ComponentTracker))))) =
     Inr (Array [bar_missing_declared]) \<and>
   foo_missing_declared \<noteq> bar_missing_declared"
  by (simp add: CT_addComponent_def CT_addElement_def process_foo_declared process_bar_declared
      foo_missing_declared_def bar_missing_declared_def)

section \<open>The check of a statically required input\<close>

text \<open>
  C4. For an input that is required and carries no expression, the check that
  \<^verbatim>\<open>pushLast\<close> makes fails on the presence vector of a usage if and only if the entry
  of the vector at the input's index is false, and the failure then reads
  \<^verbatim>\<open>is missing required input `alias`\<close>; the alias of an input is the first argument
  of its decorator when that is a string literal, and the name of the member otherwise.
\<close>

theorem static_required_check:
  assumes "makeChecks nf h0 a (map name ins) ins = Inr cs"
    and "k < length ins"
    and "required (ins ! k)"
    and "\<not> truthy (match (ins ! k))"
  shows "(cs ! k) h (process_args \<lparr>properties = map name ins, checks = cs\<rparr> t) =
           Inr (if process_args \<lparr>properties = map name ins, checks = cs\<rparr> t ! k then None
                else Some \<lparr>inputName = name (ins ! k), decorator = node (ins ! k),
                           message = ''is missing required input `'' @ inputAlias (ins ! k) @ ''`''\<rparr>) \<and>
         inputAlias (last (inputs (visitNgInput property input this))) =
           (case arguments input of StringLiteral text # _ \<Rightarrow> text | _ \<Rightarrow> p_name property)"
proof
  have m: "name (ins ! k) \<in> set (map name ins)" using assms(2) by simp
  show "(cs ! k) h (process_args \<lparr>properties = map name ins, checks = cs\<rparr> t) =
           Inr (if process_args \<lparr>properties = map name ins, checks = cs\<rparr> t ! k then None
                else Some \<lparr>inputName = name (ins ! k), decorator = node (ins ! k),
                           message = ''is missing required input `'' @ inputAlias (ins ! k) @ ''`''\<rparr>)"
    using makeChecks_default [OF assms] js_index_presence [OF m] assms(2)
    by (simp add: wrap_checker_def createDefaultMatch_def process_args_def)
  show "inputAlias (last (inputs (visitNgInput property input this))) =
           (case arguments input of StringLiteral text # _ \<Rightarrow> text | _ \<Rightarrow> p_name property)"
    by (simp add: visitNgInput_def Let_def)
qed

theorem static_required_check_witness:
  "(checks requires_foo ! 0) no_names (process_args requires_foo (make_record ''app.html'' foobar_bare)) =
     Inr (Some foo_missing) \<and>
   (checks requires_foo ! 0) no_names (process_args requires_foo (make_record ''app.html'' foobar_foo)) =
     Inr None \<and>
   inputAlias (last (inputs (visitNgInput foo_without_default renamed_decorator
      (new_InputMetadataWalker text_bare [''tagged''])))) = ''renamed-input'' \<and>
   inputAlias (last (inputs (visitNgInput foo_without_default foo_decorator
      (new_InputMetadataWalker text_bare [''tagged''])))) = ''foo''"
proof -
  have mk: "makeChecks sample_Function no_names 0 (map name [foo_required]) [foo_required] =
            Inr (checks requires_foo)"
    by (simp add: requires_foo_def foo_required_def truthy_def)
  have k: "(0::nat) < length [foo_required]" by simp
  have r: "required ([foo_required] ! 0)" by (simp add: foo_required_def)
  have m: "\<not> truthy (match ([foo_required] ! 0))" by (simp add: foo_required_def truthy_def)
  have c: "\<lparr>properties = map name [foo_required], checks = checks requires_foo\<rparr> = requires_foo"
    by (simp add: requires_foo_def foo_required_def)
  have p1: "process_args requires_foo (make_record ''app.html'' foobar_bare) = [False]"
    by (simp add: process_args_def requires_foo_def make_record_def foobar_bare_def)
  have p2: "process_args requires_foo (make_record ''app.html'' foobar_foo) = [True]"
    by (simp add: process_args_def requires_foo_def make_record_def foobar_foo_def)
  have f: "\<lparr>inputName = name ([foo_required] ! 0), decorator = node ([foo_required] ! 0),
            message = ''is missing required input `'' @ inputAlias ([foo_required] ! 0) @ ''`''\<rparr> =
           foo_missing"
    by (simp add: foo_required_def foo_missing_def)
  note s = static_required_check [OF mk k r m, unfolded c f]
  show ?thesis
    using s [of no_names "make_record ''app.html'' foobar_bare"
        foo_without_default renamed_decorator "new_InputMetadataWalker text_bare [''tagged'']"]
      s [of no_names "make_record ''app.html'' foobar_foo"
        foo_without_default foo_decorator "new_InputMetadataWalker text_bare [''tagged'']"]
    by (simp add: p1 p2 renamed_decorator_def foo_decorator_def foo_without_default_def)
qed

section \<open>The check of an input required by an expression\<close>

text \<open>
  C5. For a required input whose marker carries a non-empty expression, \<^verbatim>\<open>pushLast\<close>
  compiles the expression once, with the names of the sibling inputs as parameters, and
  the check it makes is decided by the compiled function alone: the check fails if and
  only if the function returns a truthy value on the presence vector, with the message
  \<^verbatim>\<open>is missing input `alias` required when `expr`\<close>, and it returns no failure when the
  function returns a falsy value, whatever the vector says about the input itself.
\<close>

theorem expression_check:
  assumes "makeChecks nf h0 a (map name ins) ins = Inr cs"
    and "k < length ins"
    and "required (ins ! k)"
    and "match (ins ! k) = Some expr"
    and "expr \<noteq> []"
  shows "\<exists>fn. nf (map name ins) (''return '' @ expr) = Inr fn \<and>
           (\<forall>h args. (cs ! k) h args =
              (case fn args of
                 Inl cause \<Rightarrow>
                   Inl (Error (''Could not evaluate @required directive on '' @ js_str (h a) @
                               ''.'' @ name (ins ! k) @ '' `'' @ expr @ ''`: '' @ cause))
               | Inr t \<Rightarrow>
                   Inr (if t
                        then Some \<lparr>inputName = name (ins ! k), decorator = node (ins ! k),
                                   message = ''is missing input `'' @ inputAlias (ins ! k) @
                                             ''` required when `'' @ expr @ ''`''\<rparr>
                        else None)))"
  using assms by (rule makeChecks_expression)

theorem expression_check_witness:
  "(if_not_foo_checks ! 1) no_names [False, False] = Inr (Some bar_missing_when) \<and>
   (if_not_foo_checks ! 1) no_names [True, False] = Inr None \<and>
   (if_not_foo_checks ! 1) no_names [True, True] = Inr None"
proof -
  have k: "(1::nat) < length [foo_optional, bar_if_not_foo]" by simp
  have r: "required ([foo_optional, bar_if_not_foo] ! 1)" by (simp add: bar_if_not_foo_def)
  have m: "match ([foo_optional, bar_if_not_foo] ! 1) = Some ''!foo''"
    by (simp add: bar_if_not_foo_def)
  have e: "''!foo'' \<noteq> []" by simp
  from expression_check [OF if_not_foo_made k r m e] obtain fn where
    f: "sample_Function (map name [foo_optional, bar_if_not_foo]) (''return '' @ ''!foo'') = Inr fn"
    and c: "\<And>h args. (if_not_foo_checks ! 1) h args =
              (case fn args of
                 Inl cause \<Rightarrow>
                   Inl (Error (''Could not evaluate @required directive on '' @ js_str (h 0) @
                               ''.'' @ name ([foo_optional, bar_if_not_foo] ! 1) @ '' `'' @ ''!foo'' @ ''`: '' @ cause))
               | Inr t \<Rightarrow>
                   Inr (if t
                        then Some \<lparr>inputName = name ([foo_optional, bar_if_not_foo] ! 1),
                                   decorator = node ([foo_optional, bar_if_not_foo] ! 1),
                                   message = ''is missing input `'' @ inputAlias ([foo_optional, bar_if_not_foo] ! 1) @
                                             ''` required when `'' @ ''!foo'' @ ''`''\<rparr>
                        else None))" by blast
  have fn: "fn = (\<lambda>args. map_sum id Not (name_value [''foo'', ''bar''] ''foo'' args))"
    using f by (simp add: foo_optional_def bar_if_not_foo_def sample_not_foo)
  from c [of no_names "[False, False]"] c [of no_names "[True, False]"]
    c [of no_names "[True, True]"]
  show ?thesis
    by (simp add: fn name_value_foo bar_missing_when_def bar_if_not_foo_def)
qed

text \<open>
  C10. The check of an input required by an expression does not look at the presence of
  the input itself: on a usage that supplies the input, so that the entry of the presence
  vector at its index is true, and on which the compiled function returns a truthy value,
  the check still fails, and \<^verbatim>\<open>process\<close> reports the failure naming the input.
\<close>

theorem expression_ignores_own_presence:
  assumes "makeChecks nf h0 a (map name ins) ins = Inr cs"
    and "k < length ins"
    and "required (ins ! k)"
    and "match (ins ! k) = Some expr"
    and "expr \<noteq> []"
    and "nf (map name ins) (''return '' @ expr) = Inr fn"
    and "c = \<lparr>properties = map name ins, checks = cs\<rparr>"
    and "fn (process_args c t) = Inr True"
    and "name (ins ! k) \<in> set (tr_properties t)"
  shows "process_args c t ! k \<and>
         (cs ! k) h (process_args c t) =
           Inr (Some \<lparr>inputName = name (ins ! k), decorator = node (ins ! k),
                      message = ''is missing input `'' @ inputAlias (ins ! k) @
                                ''` required when `'' @ expr @ ''`''\<rparr>) \<and>
         (\<forall>b fs. process h c t b = Inr fs \<longrightarrow>
            qualify t b \<lparr>inputName = name (ins ! k), decorator = node (ins ! k),
                         message = ''is missing input `'' @ inputAlias (ins ! k) @
                                   ''` required when `'' @ expr @ ''`''\<rparr> \<in> set fs)"
proof -
  let ?r = "\<lparr>inputName = name (ins ! k), decorator = node (ins ! k),
             message = ''is missing input `'' @ inputAlias (ins ! k) @
                       ''` required when `'' @ expr @ ''`''\<rparr>"
  have p: "process_args c t ! k" using assms(2,7,9) by (simp add: process_args_def)
  from makeChecks_expression [OF assms(1-5)] assms(6) have
    e: "(cs ! k) h (process_args c t) = Inr (Some ?r)"
    using assms(8) by auto
  have l: "length cs = length ins" using makeChecks_length [OF assms(1)] .
  have m: "cs ! k \<in> set (checks c)" using assms(2,7) l by simp
  have r: "?r \<in> set (raw_results h c t)" using raw_results_member [OF m e] .
  have "\<forall>b fs. process h c t b = Inr fs \<longrightarrow> qualify t b ?r \<in> set fs"
  proof (intro allI impI)
    fix b fs assume "process h c t b = Inr fs"
    from process_Inr [OF this] r show "qualify t b ?r \<in> set fs" by simp
  qed
  with p e show ?thesis by blast
qed

theorem expression_ignores_own_presence_witness:
  "process_args if_not_foo_component (make_record ''app.html'' foobar_bar) = [False, True] \<and>
   (if_not_foo_checks ! 1) no_names (process_args if_not_foo_component (make_record ''app.html'' foobar_bar)) =
     Inr (Some bar_missing_when)"
proof -
  have k: "(1::nat) < length [foo_optional, bar_if_not_foo]" by simp
  have r: "required ([foo_optional, bar_if_not_foo] ! 1)" by (simp add: bar_if_not_foo_def)
  have m: "match ([foo_optional, bar_if_not_foo] ! 1) = Some ''!foo''"
    by (simp add: bar_if_not_foo_def)
  have e: "''!foo'' \<noteq> []" by simp
  have f: "sample_Function (map name [foo_optional, bar_if_not_foo]) (''return '' @ ''!foo'') =
           Inr (\<lambda>args. map_sum id Not (name_value [''foo'', ''bar''] ''foo'' args))"
    by (simp add: foo_optional_def bar_if_not_foo_def sample_not_foo)
  have c: "if_not_foo_component =
           \<lparr>properties = map name [foo_optional, bar_if_not_foo], checks = if_not_foo_checks\<rparr>"
    by (simp add: if_not_foo_component_def foo_optional_def bar_if_not_foo_def)
  have p: "process_args if_not_foo_component (make_record ''app.html'' foobar_bar) = [False, True]"
    by (simp add: process_args_def if_not_foo_component_def make_record_def foobar_bar_def)
  have t: "(\<lambda>args. map_sum id Not (name_value [''foo'', ''bar''] ''foo'' args))
             (process_args if_not_foo_component (make_record ''app.html'' foobar_bar)) = Inr True"
    by (simp add: p name_value_foo)
  have s: "name ([foo_optional, bar_if_not_foo] ! 1) \<in>
           set (tr_properties (make_record ''app.html'' foobar_bar))"
    by (simp add: bar_if_not_foo_def make_record_def foobar_bar_def)
  show ?thesis
    using expression_ignores_own_presence [OF if_not_foo_made k r m e f c t s, of no_names] p
    by (simp add: bar_missing_when_def bar_if_not_foo_def)
qed

section \<open>Expressions that fail\<close>

text \<open>
  C6. The claim is that an expression that fails to compile or throws when it is evaluated
  surfaces as a thrown error naming the component, the input and the expression. The
  error is thrown and carries the input, the expression and the cause, but the component
  it names is the \<^verbatim>\<open>componentName\<close> of the walker at the moment of the throw. When the
  expression fails to compile that is the declaring component (second equation). When it
  throws on a usage that is evaluated after the walker has gone on to another component of
  the same file, the error names that other component (first equation): the input
  \<^verbatim>\<open>x\<close> belongs to \<^verbatim>\<open>alpha\<close>, the message says \<^verbatim>\<open>beta.x\<close>.
\<close>

theorem stale_component_name:
  "fst (run sample_Function two_components (initial_world nope_text [''tagged''])) =
     Some (Error ''Could not evaluate @required directive on beta.x `nope`: nope is not defined'') \<and>
   fst (run sample_Function one_component (initial_world bang_text [''tagged''])) =
     Some (Error ''Could not evaluate @required directive on alpha.x `!`: Unexpected token'')"
  by code_simp

section \<open>The all-without-defaults mode\<close>

text \<open>
  C7. The claim is that in the all-without-defaults mode an input with a default
  initializer is not required unless it is marked, an input without one is required, and
  the marker makes an input with a default required. On the code the first part does not
  hold: the marker is looked for from \<^verbatim>\<open>pos\<close> of the property, its full start, so the
  line comment \<^verbatim>\<open>// @required\<close> behind the member before it counts as its own. In the
  class body \<^verbatim>\<open>@Input() foo; // @required\<close>, \<^verbatim>\<open>@Input() bar = 1;\<close> the input
  \<^verbatim>\<open>bar\<close> has a default and no marker, and it is required, in both modes; the same
  kind of input that stands alone is not.
\<close>

theorem marker_of_previous_member_leaks:
  "p_initializer bar_defaulted \<and>
   js_slice two_inputs_text 27 44 = ''@Input() bar = 1;'' \<and>
   decoratorText two_inputs_text bar_defaulted =
     '' // @required'' @ [CHR 0x0A] @ ''@Input() bar = 1;'' \<and>
   map (\<lambda>i. (name i, required i))
     (inputs (visitNgInput bar_defaulted bar_decorator
        (visitNgInput foo_marked foo_decorator
           (new_InputMetadataWalker two_inputs_text [''all-without-defaults''])))) =
     [(''foo'', True), (''bar'', True)] \<and>
   map (\<lambda>i. (name i, required i))
     (inputs (visitNgInput bar_defaulted bar_decorator
        (visitNgInput foo_marked foo_decorator
           (new_InputMetadataWalker two_inputs_text [''tagged''])))) =
     [(''foo'', True), (''bar'', True)] \<and>
   map (\<lambda>i. (name i, required i))
     (inputs (visitNgInput foo_with_default foo_decorator
        (new_InputMetadataWalker text_default [''all-without-defaults'']))) =
     [(''foo'', False)]"
  by code_simp

section \<open>The skip list\<close>

text \<open>
  C8. A usage whose tag name is a literal of the skip list, or matches its pattern, leaves
  the registry as it was (no tracker is created, nothing is queued) and returns no
  failure; a declaration of the same tag name, registered before or after, does not see
  the usage, and the template visitor reports nothing for it.
\<close>

theorem skipped_usage_is_dropped:
  assumes "el_name el \<in> set skippedElements \<or> skipped_pattern (el_name el)"
  shows "TRIT_addElement h fl el tgs = (Inr Null, tgs) \<and>
         TRIT_addComponent h' (el_name el) c (snd (TRIT_addElement h fl el tgs)) =
           TRIT_addComponent h' (el_name el) c tgs \<and>
         reported (snd (step nf (VisitElement fl el) w)) = reported w \<and>
         rule_tracker (snd (step nf (VisitElement fl el) w)) = rule_tracker w"
  using assms by (auto simp: TRIT_addElement_def visitElement_def)

theorem skipped_usage_is_dropped_witness:
  "TRIT_addElement no_names ''app.html'' div_el Map.empty = (Inr Null, Map.empty) \<and>
   TRIT_addElement no_names ''app.html'' ng_content_el Map.empty = (Inr Null, Map.empty) \<and>
   fst (TRIT_addElement no_names ''app.html'' div_el
          (snd (TRIT_addComponent no_names ''div'' requires_foo Map.empty))) = Inr Null"
proof -
  have d: "el_name div_el \<in> set skippedElements \<or> skipped_pattern (el_name div_el)"
    by (simp add: div_el_def skippedElements_def)
  have n: "el_name ng_content_el \<in> set skippedElements \<or> skipped_pattern (el_name ng_content_el)"
    by (simp add: ng_content_el_def skipped_pattern_def is_line_terminator_def)
  show ?thesis
    using skipped_usage_is_dropped [OF d] skipped_usage_is_dropped [OF n] by simp
qed

section \<open>What addElement returns\<close>

text \<open>
  C9. The claim is that \<^verbatim>\<open>addElement\<close> always returns an array. On the code it does
  not: a usage that arrives before the declaration of its tag is queued and the method
  returns \<^verbatim>\<open>undefined\<close>, a usage of a skip-listed tag returns \<^verbatim>\<open>null\<close>, and in
  both cases the \<^verbatim>\<open>forEach\<close> of \<^verbatim>\<open>visitElement\<close> throws a TypeError.
\<close>

theorem addElement_returns_no_array:
  "fst (CT_addElement no_names ''app.html'' foobar_bare new_ComponentTracker) = Inr Undefined \<and>
   fst (TRIT_addElement no_names ''app.html'' foobar_bare Map.empty) = Inr Undefined \<and>
   fst (visitElement no_names ''app.html'' foobar_bare Map.empty) = Inl TypeError \<and>
   fst (TRIT_addElement no_names ''app.html'' div_el Map.empty) = Inr Null \<and>
   fst (visitElement no_names ''app.html'' div_el Map.empty) = Inl TypeError"
  by (simp add: CT_addElement_def TRIT_addElement_def visitElement_def new_ComponentTracker_def
      getByName_def foobar_bare_def div_el_def skippedElements_def skipped_pattern_def)

end
